theory Spec2Isabelle
  imports Main
begin

text \<open>
  A model of \<open>wisshrd\<close>, a command-line helper that composes the argument of an
  \<open>ssh\<close> call from four selections (key, account, host, jump host), each made in
  the fuzzy picker \<open>fzf\<close>, and that remembers what was selected in a JSON file.
  \<open>main.go\<close> holds the program twice: an earlier version, which stores plain
  strings, and after it the current one, which stores entries with their times of
  creation and last use. The model follows the current one, function by function;
  what the program asks of the operating system, of the Go library's JSON codec
  and of the programs it starts is a parameter of the model.
\<close>

section \<open>Strings of the Go standard library\<close>

text \<open>
  A Go string is a sequence of bytes, here a \<open>string\<close> (a list of 8-bit characters).
  The functions of package \<open>strings\<close> that \<open>main.go\<close> calls are written out over
  bytes. Those that look at white space decode UTF-8 in Go; the white-space runes
  (\<open>unicode.IsSpace\<close>) are the six ASCII ones, U+0085 and U+00A0 (two bytes each in
  UTF-8) and U+1680, U+2000 to U+200A, U+2028, U+2029, U+202F, U+205F and U+3000 (three
  bytes each). A lead byte of UTF-8 is never read as the continuation of an earlier
  rune, so a white-space rune stands in a string exactly where its encoding does.
\<close>

definition HasPrefix :: "string \<Rightarrow> string \<Rightarrow> bool" where
  "HasPrefix s prefix = (length prefix \<le> length s \<and> take (length prefix) s = prefix)"

definition TrimPrefix :: "string \<Rightarrow> string \<Rightarrow> string" where
  "TrimPrefix s prefix = (if HasPrefix s prefix then drop (length prefix) s else s)"

fun Contains :: "string \<Rightarrow> string \<Rightarrow> bool" where
  "Contains [] substr = (substr = [])"
| "Contains (c # s) substr = (HasPrefix (c # s) substr \<or> Contains s substr)"

definition asciiSpace :: "char \<Rightarrow> bool" where
  "asciiSpace c = (c = CHR 0x09 \<or> c = CHR 0x0A \<or> c = CHR 0x0B \<or> c = CHR 0x0C
                   \<or> c = CHR 0x0D \<or> c = CHR 0x20)"

definition space2 :: "string list" where
  "space2 = [[CHR 0xC2, CHR 0x85], [CHR 0xC2, CHR 0xA0]]"

definition space3 :: "string list" where
  "space3 = [[CHR 0xE1, CHR 0x9A, CHR 0x80],
     [CHR 0xE2, CHR 0x80, CHR 0x80], [CHR 0xE2, CHR 0x80, CHR 0x81],
     [CHR 0xE2, CHR 0x80, CHR 0x82], [CHR 0xE2, CHR 0x80, CHR 0x83],
     [CHR 0xE2, CHR 0x80, CHR 0x84], [CHR 0xE2, CHR 0x80, CHR 0x85],
     [CHR 0xE2, CHR 0x80, CHR 0x86], [CHR 0xE2, CHR 0x80, CHR 0x87],
     [CHR 0xE2, CHR 0x80, CHR 0x88], [CHR 0xE2, CHR 0x80, CHR 0x89],
     [CHR 0xE2, CHR 0x80, CHR 0x8A], [CHR 0xE2, CHR 0x80, CHR 0xA8],
     [CHR 0xE2, CHR 0x80, CHR 0xA9], [CHR 0xE2, CHR 0x80, CHR 0xAF],
     [CHR 0xE2, CHR 0x81, CHR 0x9F], [CHR 0xE3, CHR 0x80, CHR 0x80]]"

text \<open>The number of bytes of the white-space rune a string starts with; 0 when it
  starts with none.\<close>

definition spaceLen :: "string \<Rightarrow> nat" where
  "spaceLen s =
     (if s \<noteq> [] \<and> asciiSpace (hd s) then 1
      else if 2 \<le> length s \<and> take 2 s \<in> set space2 then 2
      else if 3 \<le> length s \<and> take 3 s \<in> set space3 then 3
      else 0)"

text \<open>The number of bytes of the white-space rune a string ends with
  (\<open>utf8.DecodeLastRuneInString\<close>); 0 when it ends with none.\<close>

definition lastSpaceLen :: "string \<Rightarrow> nat" where
  "lastSpaceLen s =
     (if s \<noteq> [] \<and> asciiSpace (last s) then 1
      else if 2 \<le> length s \<and> drop (length s - 2) s \<in> set space2 then 2
      else if 3 \<le> length s \<and> drop (length s - 3) s \<in> set space3 then 3
      else 0)"

lemma spaceLen_le: "spaceLen s \<le> length s"
  by (cases s) (auto simp: spaceLen_def)

lemma lastSpaceLen_le: "lastSpaceLen s \<le> length s"
  by (cases s) (auto simp: lastSpaceLen_def)

function TrimLeftSpace :: "string \<Rightarrow> string" where
  "TrimLeftSpace s = (if spaceLen s = 0 then s else TrimLeftSpace (drop (spaceLen s) s))"
  by pat_completeness auto
termination
proof (relation "measure length")
  fix s :: string
  assume "spaceLen s \<noteq> 0"
  moreover have "spaceLen s \<le> length s" by (rule spaceLen_le)
  ultimately show "(drop (spaceLen s) s, s) \<in> measure length" by simp
qed simp

function TrimRightSpace :: "string \<Rightarrow> string" where
  "TrimRightSpace s =
     (if lastSpaceLen s = 0 then s else TrimRightSpace (take (length s - lastSpaceLen s) s))"
  by pat_completeness auto
termination
proof (relation "measure length")
  fix s :: string
  assume "lastSpaceLen s \<noteq> 0"
  moreover have "lastSpaceLen s \<le> length s" by (rule lastSpaceLen_le)
  ultimately show "(take (length s - lastSpaceLen s) s, s) \<in> measure length" by simp
qed simp

definition TrimSpace :: "string \<Rightarrow> string" where
  "TrimSpace s = TrimRightSpace (TrimLeftSpace s)"

text \<open>\<open>strings.Fields\<close>: the maximal runs of bytes between white-space runes, in
  order; \<open>cur\<close> is the field being read.\<close>

function FieldsFrom :: "string \<Rightarrow> string \<Rightarrow> string list" where
  "FieldsFrom cur s =
     (if s = [] then (if cur = [] then [] else [cur])
      else if spaceLen s = 0 then FieldsFrom (cur @ [hd s]) (tl s)
      else (if cur = [] then [] else [cur]) @ FieldsFrom [] (drop (spaceLen s) s))"
  by pat_completeness auto
termination
proof (relation "measure (\<lambda>(cur, s). length s)")
  fix cur s :: string
  assume "s \<noteq> []" "spaceLen s \<noteq> 0"
  moreover have "spaceLen s \<le> length s" by (rule spaceLen_le)
  ultimately show "(([], drop (spaceLen s) s), (cur, s)) \<in> measure (\<lambda>(cur, s). length s)"
    by simp
qed simp_all

definition Fields :: "string \<Rightarrow> string list" where
  "Fields s = FieldsFrom [] s"

text \<open>The encoding of one white-space rune, and a string of white-space runes only.\<close>

definition isSpaceRune :: "string \<Rightarrow> bool" where
  "isSpaceRune p = ((\<exists>c. p = [c] \<and> asciiSpace c) \<or> p \<in> set space2 \<or> p \<in> set space3)"

inductive spaces :: "string \<Rightarrow> bool" where
  spaces_Nil: "spaces []"
| spaces_snoc: "spaces s \<Longrightarrow> isSpaceRune p \<Longrightarrow> spaces (s @ p)"

text \<open>\<open>strings.Split(s, sep)\<close> for a separator of one byte.\<close>

fun Split :: "string \<Rightarrow> char \<Rightarrow> string list" where
  "Split [] sep = [[]]"
| "Split (c # s) sep =
     (if c = sep then [] # Split s sep
      else (case Split s sep of [] \<Rightarrow> [[c]] | l # ls \<Rightarrow> (c # l) # ls))"

section \<open>The data model\<close>

text \<open>A \<open>time.Time\<close> is the instant it denotes, in nanoseconds since the epoch.\<close>

type_synonym time = int

record StoredEntry =
  Value :: string
  LastUsed :: time
  CreatedAt :: time

record SSHConfig =
  Keys :: "StoredEntry list"
  Accounts :: "StoredEntry list"
  Hosts :: "StoredEntry list"
  Jumps :: "StoredEntry list"

record StoredData =
  Keys :: "StoredEntry list"
  Accounts :: "StoredEntry list"
  Hosts :: "StoredEntry list"
  Jumps :: "StoredEntry list"

section \<open>The history store\<close>

text \<open>\<open>getValues\<close>, \<open>createStoredEntry\<close> and \<open>addOrUpdateEntry\<close>. The instant \<open>now\<close> is
  the reading of \<open>time.Now()\<close> the function takes. \<open>addOrUpdateEntry\<close> writes the
  first matching entry of the slice in place and returns the slice; no other
  reference to the slice is used afterwards, so the model returns the new list.\<close>

definition getValues :: "StoredEntry list \<Rightarrow> string list" where
  "getValues entries = map Value entries"

definition createStoredEntry :: "time \<Rightarrow> string \<Rightarrow> StoredEntry" where
  "createStoredEntry now v = \<lparr>Value = v, LastUsed = now, CreatedAt = now\<rparr>"

fun addOrUpdateEntry :: "time \<Rightarrow> StoredEntry list \<Rightarrow> string \<Rightarrow> StoredEntry list" where
  "addOrUpdateEntry now [] v = [\<lparr>Value = v, LastUsed = now, CreatedAt = now\<rparr>]"
| "addOrUpdateEntry now (entry # entries) v =
     (if Value entry = v then entry\<lparr>LastUsed := now\<rparr> # entries
      else entry # addOrUpdateEntry now entries v)"

section \<open>The world a run sees\<close>

text \<open>
  A Go \<open>error\<close> is the value the operating system or a command reported, an
  \<open>*exec.ExitError\<close> with its exit code, or an error wrapped by \<open>fmt.Errorf\<close> with
  \<open>%w\<close> under a message.
\<close>

datatype error = OSError string | ExitErr int | Wrapped string error

text \<open>What \<open>cmd.StdinPipe()\<close> and \<open>cmd.Output()\<close> give for one start of the picker:
  the pipe cannot be made; the picker exits with status 0 and the given standard
  output; it exits with another status (an \<open>*exec.ExitError\<close>; \<open>Output\<close> still
  returns what the picker printed); or it could not be run at all.\<close>

datatype picker_run =
    PipeError error
  | Success string
  | ExitError int string
  | OtherError error

text \<open>
  Everything outside the program is a field of the \<open>world\<close> of the run: the command
  line, the calls into the operating system with the results they give, the JSON
  encoder and decoder of \<open>encoding/json\<close> for \<open>StoredData\<close>, the clock, the picker,
  the standard input and the secure-shell client.
  \<^item> \<open>flagParse\<close> is what \<open>flag.Parse()\<close> does with the command line: \<open>Inl c\<close> when it
    ends the process with status \<open>c\<close> (2 for a flag that is not defined, 0 for
    \<open>-h\<close>), \<open>Inr v\<close> when it returns and \<open>*showVersion\<close> is \<open>v\<close>.
  \<^item> \<open>FileNotExist p\<close> is \<open>os.IsNotExist\<close> of the error of \<open>os.Stat(p)\<close>.
  \<^item> \<open>Unmarshal file data\<close> is the value \<open>json.Unmarshal\<close> leaves in \<open>data\<close> and the
    error it returns.
  \<^item> \<open>OpenLines p\<close> is \<open>None\<close> when \<open>os.Open(p)\<close> fails, and otherwise the lines
    \<open>scanner.Text()\<close> yields until \<open>scanner.Scan()\<close> is false.
  \<^item> \<open>Now n\<close> is what the call number \<open>n\<close> of \<open>time.Now()\<close> returns.
  \<^item> \<open>fzf i items prompt\<close> is the run of the picker started by call number \<open>i\<close> of
    \<open>runFzf\<close>, fed \<open>items\<close> under the prompt label \<open>prompt\<close>.
  \<^item> \<open>ssh cmd\<close> is the error of running the client with the one argument \<open>cmd\<close>.
  The history file is read twice in a run and written once, at the end; the world
  answers both reads alike (no other process writes the file meanwhile).
\<close>

record world =
  flagParse :: "int + bool"
  UserHomeDir :: "error + string"
  Join :: "string list \<Rightarrow> string"
  MkdirAll :: "string \<Rightarrow> error option"
  FileNotExist :: "string \<Rightarrow> bool"
  ReadFile :: "string \<Rightarrow> error + string"
  WriteFile :: "string \<Rightarrow> string \<Rightarrow> error option"
  Unmarshal :: "string \<Rightarrow> StoredData \<Rightarrow> StoredData \<times> error option"
  MarshalIndent :: "StoredData \<Rightarrow> error + string"
  Current :: "error + string"
  OpenLines :: "string \<Rightarrow> string list option"
  Now :: "nat \<Rightarrow> time"
  fzf :: "nat \<Rightarrow> string list \<Rightarrow> string \<Rightarrow> picker_run"
  stdin :: string
  ssh :: "string \<Rightarrow> error option"

section \<open>Loading and saving the history\<close>

definition emptyStoredData :: StoredData where
  "emptyStoredData = \<lparr>StoredData.Keys = [], Accounts = [], Hosts = [], Jumps = []\<rparr>"

definition getConfigPath :: "world \<Rightarrow> error + string" where
  "getConfigPath w =
     (case UserHomeDir w of
        Inl err \<Rightarrow> Inl (Wrapped ''could not get home directory: '' err)
      | Inr homeDir \<Rightarrow>
          (let configDir = Join w [homeDir, ''.config'', ''wisshrd''] in
           case MkdirAll w configDir of
             Some err \<Rightarrow> Inl (Wrapped ''could not create config directory: '' err)
           | None \<Rightarrow> Inr (Join w [configDir, ''history.json''])))"

definition loadStoredData :: "world \<Rightarrow> StoredData \<times> error option" where
  "loadStoredData w =
     (let data = emptyStoredData in
      case getConfigPath w of
        Inl err \<Rightarrow> (data, Some err)
      | Inr configPath \<Rightarrow>
          if FileNotExist w configPath then (data, None)
          else (case ReadFile w configPath of
                  Inl err \<Rightarrow> (data, Some (Wrapped ''could not read config file: '' err))
                | Inr file \<Rightarrow>
                    (case Unmarshal w file data of
                       (data', Some err) \<Rightarrow>
                         (data', Some (Wrapped ''could not parse config file: '' err))
                     | (data', None) \<Rightarrow> (data', None))))"

definition saveStoredData :: "world \<Rightarrow> StoredData \<Rightarrow> error option" where
  "saveStoredData w data =
     (case getConfigPath w of
        Inl err \<Rightarrow> Some err
      | Inr configPath \<Rightarrow>
          (case MarshalIndent w data of
             Inl err \<Rightarrow> Some (Wrapped ''could not marshal config data: '' err)
           | Inr jsonData \<Rightarrow>
               (case WriteFile w configPath jsonData of
                  Some err \<Rightarrow> Some (Wrapped ''could not write config file: '' err)
                | None \<Rightarrow> None)))"




section \<open>The candidate lists\<close>

text \<open>The loops of \<open>loadSSHConfig\<close>. The number beside the configuration counts the
  readings of the clock taken so far: \<open>createStoredEntry\<close> reads it once.\<close>

fun appendHosts :: "(nat \<Rightarrow> time) \<Rightarrow> string list \<Rightarrow> SSHConfig \<times> nat \<Rightarrow> SSHConfig \<times> nat" where
  "appendHosts clock [] (config, n) = (config, n)"
| "appendHosts clock (h # hs) (config, n) =
     appendHosts clock hs
       (config\<lparr>SSHConfig.Hosts := SSHConfig.Hosts config @ [createStoredEntry (clock n) h]\<rparr>,
        Suc n)"

definition configLine :: "(nat \<Rightarrow> time) \<Rightarrow> string \<Rightarrow> SSHConfig \<times> nat \<Rightarrow> SSHConfig \<times> nat" where
  "configLine clock text cn =
     (let line = TrimSpace text; config = fst cn; n = snd cn in
      if HasPrefix line ''Host '' then
        (let host = TrimPrefix line ''Host '' in
         if \<not> Contains host ''*'' then appendHosts clock (Fields host) (config, n)
         else (config, n))
      else if HasPrefix line ''User '' then
        (let user = TrimPrefix line ''User '' in
         (config\<lparr>SSHConfig.Accounts :=
            SSHConfig.Accounts config @ [createStoredEntry (clock n) user]\<rparr>, Suc n))
      else if HasPrefix line ''ProxyJump '' then
        (let jump = TrimPrefix line ''ProxyJump '' in
         (config\<lparr>SSHConfig.Jumps :=
            SSHConfig.Jumps config @ [createStoredEntry (clock n) jump]\<rparr>, Suc n))
      else (config, n))"

fun scanConfig :: "(nat \<Rightarrow> time) \<Rightarrow> string list \<Rightarrow> SSHConfig \<times> nat \<Rightarrow> SSHConfig \<times> nat" where
  "scanConfig clock [] cn = cn"
| "scanConfig clock (text # rest) cn = scanConfig clock rest (configLine clock text cn)"

definition loadSSHConfig :: "world \<Rightarrow> nat \<Rightarrow> error + SSHConfig \<times> nat" where
  "loadSSHConfig w n =
     (case UserHomeDir w of
        Inl err \<Rightarrow> Inl err
      | Inr homeDir \<Rightarrow>
          (let config = \<lparr>SSHConfig.Keys = [], Accounts = [], Hosts = [], Jumps = []\<rparr>;
               cn1 = (case Current w of
                        Inr username \<Rightarrow>
                          (config\<lparr>SSHConfig.Keys :=
                             SSHConfig.Keys config @ [createStoredEntry (Now w n) username]\<rparr>,
                           Suc n)
                      | Inl err \<Rightarrow> (config, n));
               sshConfigPath = Join w [homeDir, ''.ssh'', ''config''];
               cn2 = (case OpenLines w sshConfigPath of
                        Some lines \<Rightarrow> scanConfig (Now w) lines cn1
                      | None \<Rightarrow> cn1);
               config2 = fst cn2;
               loaded = loadStoredData w;
               storedData = fst loaded
           in Inr (if snd loaded = None
                   then config2\<lparr>SSHConfig.Keys := SSHConfig.Keys config2 @ StoredData.Keys storedData,
                          SSHConfig.Accounts := SSHConfig.Accounts config2 @ StoredData.Accounts storedData,
                          SSHConfig.Hosts := SSHConfig.Hosts config2 @ StoredData.Hosts storedData,
                          SSHConfig.Jumps := SSHConfig.Jumps config2 @ StoredData.Jumps storedData\<rparr>
                   else config2,
                   snd cn2)))"

text \<open>
  The host names one line of the client's configuration contributes, as a function
  of the line alone: the white-space-separated words after \<open>Host\<close> and a space, and
  none of them when a \<open>*\<close> stands anywhere after the keyword.
\<close>

definition hostNames :: "string \<Rightarrow> string list" where
  "hostNames text =
     (let line = TrimSpace text in
      if take 5 line = ''Host '' then
        (if CHR ''*'' \<in> set (drop 5 line) then [] else Fields (drop 5 line))
      else [])"

section \<open>The selector\<close>

text \<open>\<open>runFzf\<close>, call number \<open>i\<close>. The items and the prompt label reach the picker
  through its arguments and standard input; what the picker does with them is the
  world's.\<close>

definition runFzf :: "world \<Rightarrow> nat \<Rightarrow> string list \<Rightarrow> string \<Rightarrow> error + string" where
  "runFzf w i items prompt =
     (case fzf w i items prompt of
        PipeError err \<Rightarrow> Inl err
      | OtherError err \<Rightarrow> Inl err
      | ExitError code output \<Rightarrow>
          (let lines = Split output (CHR 0x0A) in
           if code = 1 \<and> length lines > 0 \<and> hd lines \<noteq> [] then Inr (hd lines)
           else Inl (ExitErr code))
      | Success output \<Rightarrow>
          (let lines = Split output (CHR 0x0A) in
           if length lines \<ge> 2 then
             (let selection = TrimSpace (lines ! 1) in
              if selection \<noteq> [] then Inr selection else Inr (TrimSpace (lines ! 0)))
           else Inr (TrimSpace output)))"

section \<open>Confirmation\<close>

text \<open>
  \<open>fmt.Scanln(&response)\<close> with one string operand, on the bytes standard input
  still holds. \<open>SkipSpace\<close> passes white space other than a newline; a newline there
  is the error "unexpected newline" (\<open>None\<close>). \<open>readToken\<close> is the run of bytes up
  to the next white-space rune or the end. The operand is written only when a token
  was read, and \<open>promptConfirmation\<close> drops the error \<open>Scanln\<close> returns (among them
  "expected newline", when more than white space follows the token), so \<open>Scanln\<close>
  here is the value of \<open>response\<close> after the call. Go stores a byte that is not
  UTF-8 as U+FFFD; the model keeps the byte, which is outside ASCII either way.
\<close>

function SkipSpace :: "string \<Rightarrow> string option" where
  "SkipSpace s =
     (if s = [] then Some []
      else if hd s = CHR 0x0A then None
      else if spaceLen s = 0 then Some s
      else SkipSpace (drop (spaceLen s) s))"
  by pat_completeness auto
termination
proof (relation "measure length")
  fix s :: string
  assume "s \<noteq> []" "spaceLen s \<noteq> 0"
  moreover have "spaceLen s \<le> length s" by (rule spaceLen_le)
  ultimately show "(drop (spaceLen s) s, s) \<in> measure length" by simp
qed simp

fun readToken :: "string \<Rightarrow> string" where
  "readToken [] = []"
| "readToken (c # s) = (if spaceLen (c # s) \<noteq> 0 then [] else c # readToken s)"

definition Scanln :: "string \<Rightarrow> string" where
  "Scanln input = (case SkipSpace input of None \<Rightarrow> [] | Some s \<Rightarrow> readToken s)"

text \<open>
  \<open>strings.ToLower\<close>. The letters A to Z go to a to z; of the runes outside ASCII,
  U+0130 goes to i and U+212A to k, and every other one to a rune outside ASCII (or
  to U+FFFD, when the bytes are not UTF-8), which the model leaves as it is: the
  program compares the result with an ASCII literal only.
\<close>

fun ToLower :: "string \<Rightarrow> string" where
  "ToLower [] = []"
| "ToLower (c # s) =
     (if (0x41::nat) \<le> of_char c \<and> of_char c \<le> (0x5A::nat)
        then char_of (of_char c + (0x20::nat)) # ToLower s
      else if take 2 (c # s) = [CHR 0xC4, CHR 0xB0] then CHR ''i'' # ToLower (drop 1 s)
      else if take 3 (c # s) = [CHR 0xE2, CHR 0x84, CHR 0xAA] then CHR ''k'' # ToLower (drop 2 s)
      else c # ToLower s)"

definition promptConfirmation :: "world \<Rightarrow> string \<Rightarrow> bool" where
  "promptConfirmation w sshCmd = (let response = Scanln (stdin w) in ToLower response = ''y'')"

definition executeSSH :: "world \<Rightarrow> string \<Rightarrow> error option" where
  "executeSSH w sshCmd = ssh w sshCmd"

section \<open>The run\<close>

text \<open>
  How \<open>main\<close> ends: inside \<open>flag.Parse()\<close> with the given status; after printing the
  version; with a message and the error on the error stream and \<open>os.Exit(1)\<close>,
  before anything is saved; with a run-time panic; or after \<open>saveStoredData\<close> was
  called with the given history and the given command was shown for confirmation,
  which was declined, or accepted with the client succeeding or failing. \<open>main\<close>
  drops the error of \<open>saveStoredData\<close>.
\<close>

datatype outcome =
    UsageExit int
  | VersionPrinted
  | Fatal string error
  | Panic string
  | Cancelled StoredData string
  | Connected StoredData string
  | LaunchFailed StoredData string error

definition main :: "world \<Rightarrow> outcome" where
  "main w =
     (case flagParse w of
        Inl code \<Rightarrow> UsageExit code
      | Inr showVersion \<Rightarrow>
      if showVersion then VersionPrinted
      else case loadSSHConfig w 0 of
        Inl err \<Rightarrow> Fatal ''Error loading SSH config: '' err
      | Inr (config, n0) \<Rightarrow>
      (let storedData = fst (loadStoredData w) in
       case runFzf w 0 (getValues (SSHConfig.Keys config)) ''key'' of
         Inl err \<Rightarrow> Fatal ''Error selecting key: '' err
       | Inr key \<Rightarrow>
       (case SSHConfig.Keys config of
          [] \<Rightarrow> Panic ''index out of range [0] with length 0''
        | first # others \<Rightarrow>
       (let changed = (key \<noteq> Value first);
            storedData1 = (if changed
              then storedData\<lparr>StoredData.Keys :=
                     addOrUpdateEntry (Now w n0) (StoredData.Keys storedData) key\<rparr>
              else storedData);
            n1 = (if changed then Suc n0 else n0) in
        case runFzf w 1 (getValues (SSHConfig.Accounts config)) ''account'' of
          Inl err \<Rightarrow> Fatal ''Error selecting account: '' err
        | Inr account \<Rightarrow>
        (let storedData2 = storedData1\<lparr>StoredData.Accounts :=
               addOrUpdateEntry (Now w n1) (StoredData.Accounts storedData1) account\<rparr> in
         case runFzf w 2 (getValues (SSHConfig.Hosts config)) ''host'' of
           Inl err \<Rightarrow> Fatal ''Error selecting host: '' err
         | Inr host \<Rightarrow>
         (let storedData3 = storedData2\<lparr>StoredData.Hosts :=
                addOrUpdateEntry (Now w (Suc n1)) (StoredData.Hosts storedData2) host\<rparr> in
          case runFzf w 3 (getValues (SSHConfig.Jumps config)) ''jump'' of
            Inl err \<Rightarrow> Fatal ''Error selecting jump host: '' err
          | Inr jump \<Rightarrow>
          (let storedData4 = (if jump \<noteq> []
                 then storedData3\<lparr>StoredData.Jumps :=
                        addOrUpdateEntry (Now w (Suc (Suc n1))) (StoredData.Jumps storedData3) jump\<rparr>
                 else storedData3);
               saveError = saveStoredData w storedData4;
               sshCmd = key @ ''@'' @ account @ ''@'' @ host;
               sshCmd = (if jump \<noteq> [] then sshCmd @ ''@'' @ jump else sshCmd) in
           if promptConfirmation w sshCmd then
             (case executeSSH w sshCmd of
                Some err \<Rightarrow> LaunchFailed storedData4 sshCmd err
              | None \<Rightarrow> Connected storedData4 sshCmd)
           else Cancelled storedData4 sshCmd)))))))"

text \<open>The history a run passed to \<open>saveStoredData\<close>, and the command it composed.\<close>

fun savedData :: "outcome \<Rightarrow> StoredData option" where
  "savedData (Cancelled d c) = Some d"
| "savedData (Connected d c) = Some d"
| "savedData (LaunchFailed d c e) = Some d"
| "savedData other = None"

fun composed :: "outcome \<Rightarrow> string option" where
  "composed (Cancelled d c) = Some c"
| "composed (Connected d c) = Some c"
| "composed (LaunchFailed d c e) = Some c"
| "composed other = None"

section \<open>Example worlds\<close>

text \<open>
  A world for the examples: the home directory is \<open>/home/alice\<close> and paths are
  joined with a slash; \<open>cur\<close> is the result of the user lookup, \<open>cfg\<close> the lines of
  \<open>~/.ssh/config\<close> (\<open>None\<close>: no such file), \<open>hist\<close> the content of the history file
  with what the decoder makes of it (\<open>None\<close>: no such file), \<open>picks\<close> the runs of the
  picker in order and \<open>inp\<close> the standard input. Every write succeeds; the bytes a
  run writes are not read again in it.
\<close>

fun joinSlash :: "string list \<Rightarrow> string" where
  "joinSlash [] = []"
| "joinSlash [p] = p"
| "joinSlash (p # ps) = p @ ''/'' @ joinSlash ps"

definition historyPath :: string where
  "historyPath = ''/home/alice/.config/wisshrd/history.json''"

definition sessionWorld ::
  "(error + string) \<Rightarrow> string list option \<Rightarrow> (string \<times> StoredData \<times> error option) option
     \<Rightarrow> picker_run list \<Rightarrow> string \<Rightarrow> world" where
  "sessionWorld cur cfg hist picks inp =
     \<lparr>flagParse = Inr False,
      UserHomeDir = Inr ''/home/alice'',
      Join = joinSlash,
      MkdirAll = (\<lambda>dir. None),
      FileNotExist = (\<lambda>p. \<not> (p = historyPath \<and> hist \<noteq> None)),
      ReadFile = (\<lambda>p. case hist of
                      Some (content, decoded) \<Rightarrow>
                        if p = historyPath then Inr content
                        else Inl (OSError ''no such file or directory'')
                    | None \<Rightarrow> Inl (OSError ''no such file or directory'')),
      WriteFile = (\<lambda>p bytes. None),
      Unmarshal = (\<lambda>file data. case hist of
                      Some (content, decoded) \<Rightarrow>
                        if file = content then decoded
                        else (data, Some (OSError ''unexpected end of JSON input''))
                    | None \<Rightarrow> (data, Some (OSError ''unexpected end of JSON input''))),
      MarshalIndent = (\<lambda>data. Inr ''{}''),
      Current = cur,
      OpenLines = (\<lambda>p. if p = ''/home/alice/.ssh/config'' then cfg else None),
      Now = (\<lambda>n. 1000 + int n),
      fzf = (\<lambda>i items prompt. if i < length picks then picks ! i
                               else OtherError (OSError ''executable file not found'')),
      stdin = inp,
      ssh = (\<lambda>cmd. None)\<rparr>"

text \<open>A list of two entries.\<close>

definition twoEntries :: "StoredEntry list" where
  "twoEntries = [\<lparr>Value = ''alice'', LastUsed = 1, CreatedAt = 1\<rparr>,
                 \<lparr>Value = ''bob'', LastUsed = 2, CreatedAt = 2\<rparr>]"

text \<open>Four runs of the picker: left with status 1 after the query \<open>alice\<close> was
  typed, left with status 1 and no query, interrupted (status 130), and not found.\<close>

definition abnormalPicks :: "picker_run list" where
  "abnormalPicks = [ExitError 1 (''alice'' @ [CHR 0x0A]), ExitError 1 [CHR 0x0A],
                    ExitError 130 [], OtherError (OSError ''executable file not found'')]"

definition abnormalWorld :: world where
  "abnormalWorld = sessionWorld (Inr ''alice'') None None abnormalPicks []"

text \<open>What the picker prints when the user chooses the line \<open>v\<close> without typing: an
  empty query line, then the chosen line.\<close>

definition picked :: "string \<Rightarrow> picker_run" where
  "picked v = Success (CHR 0x0A # v @ [CHR 0x0A])"

definition exampleConfig :: "string list" where
  "exampleConfig = [''Host foo bar'', ''Host *wild*'', ''User svc1'', ''ProxyJump jmp1'']"

definition exampleCandidates :: SSHConfig where
  "exampleCandidates =
     \<lparr>SSHConfig.Keys = [createStoredEntry 1000 ''alice''],
      Accounts = [createStoredEntry 1003 ''svc1''],
      Hosts = [createStoredEntry 1001 ''foo'', createStoredEntry 1002 ''bar''],
      Jumps = [createStoredEntry 1004 ''jmp1'']\<rparr>"

text \<open>A first run, with no history file: alice, svc1 and foo are chosen, the jump
  selection is empty, and the user confirms.\<close>

definition plainWorld :: world where
  "plainWorld = sessionWorld (Inr ''alice'') (Some exampleConfig) None
     [picked ''alice'', picked ''svc1'', picked ''foo'', Success [CHR 0x0A]]
     (''y'' @ [CHR 0x0A])"

text \<open>The same run with the jump host jmp1 chosen, and declined at the prompt.\<close>

definition jumpWorld :: world where
  "jumpWorld = sessionWorld (Inr ''alice'') (Some exampleConfig) None
     [picked ''alice'', picked ''svc1'', picked ''foo'', picked ''jmp1'']
     (''n'' @ [CHR 0x0A])"

text \<open>A later run: the history file holds one entry in each list.\<close>

definition storedHistory :: StoredData where
  "storedHistory =
     \<lparr>StoredData.Keys = [\<lparr>Value = ''bob'', LastUsed = 20, CreatedAt = 10\<rparr>],
      Accounts = [\<lparr>Value = ''svc0'', LastUsed = 21, CreatedAt = 11\<rparr>],
      Hosts = [\<lparr>Value = ''foo'', LastUsed = 22, CreatedAt = 12\<rparr>],
      Jumps = [\<lparr>Value = ''jmp0'', LastUsed = 23, CreatedAt = 13\<rparr>]\<rparr>"

definition historyWorld :: world where
  "historyWorld = sessionWorld (Inr ''alice'') (Some exampleConfig)
     (Some (''the bytes of history.json'', storedHistory, None))
     [picked ''alice'', picked ''svc1'', picked ''foo'', Success [CHR 0x0A]]
     (''y'' @ [CHR 0x0A])"

definition historyCandidates :: SSHConfig where
  "historyCandidates =
     \<lparr>SSHConfig.Keys = createStoredEntry 1000 ''alice'' # StoredData.Keys storedHistory,
      Accounts = createStoredEntry 1003 ''svc1'' # StoredData.Accounts storedHistory,
      Hosts = [createStoredEntry 1001 ''foo'', createStoredEntry 1002 ''bar'']
                @ StoredData.Hosts storedHistory,
      Jumps = createStoredEntry 1004 ''jmp1'' # StoredData.Jumps storedHistory\<rparr>"

text \<open>What the later run passes to \<open>saveStoredData\<close>.\<close>

definition historySaved :: StoredData where
  "historySaved =
     \<lparr>StoredData.Keys = [\<lparr>Value = ''bob'', LastUsed = 20, CreatedAt = 10\<rparr>],
      Accounts = [\<lparr>Value = ''svc0'', LastUsed = 21, CreatedAt = 11\<rparr>,
                  \<lparr>Value = ''svc1'', LastUsed = 1005, CreatedAt = 1005\<rparr>],
      Hosts = [\<lparr>Value = ''foo'', LastUsed = 1006, CreatedAt = 12\<rparr>],
      Jumps = [\<lparr>Value = ''jmp0'', LastUsed = 23, CreatedAt = 13\<rparr>]\<rparr>"

text \<open>A run in which the user lookup fails and there is neither a configuration of
  the client nor a history file; the user types alice into the empty picker and
  presses enter, which the picker reports with status 1 and the query.\<close>

definition noUserWorld :: world where
  "noUserWorld = sessionWorld (Inl (OSError ''user: unknown userid 1000'')) None None
     [ExitError 1 (''alice'' @ [CHR 0x0A])] []"

text \<open>A configuration of the client with a plain name and a pattern on one line.\<close>

definition mixedHostWorld :: world where
  "mixedHostWorld = sessionWorld (Inr ''alice'') (Some [''Host foo *bar'']) None [] []"

text \<open>The first run again, with the given bytes on standard input.\<close>

definition answerWorld :: "string \<Rightarrow> world" where
  "answerWorld inp = sessionWorld (Inr ''alice'') (Some exampleConfig) None
     [picked ''alice'', picked ''svc1'', picked ''foo'', Success [CHR 0x0A]] inp"

















text \<open>What the first run passes to \<open>saveStoredData\<close>.\<close>

definition plainSaved :: StoredData where
  "plainSaved =
     \<lparr>StoredData.Keys = [],
      Accounts = [\<lparr>Value = ''svc1'', LastUsed = 1005, CreatedAt = 1005\<rparr>],
      Hosts = [\<lparr>Value = ''foo'', LastUsed = 1006, CreatedAt = 1006\<rparr>],
      Jumps = []\<rparr>"

section \<open>Properties of the history store\<close>

declare TrimLeftSpace.simps [simp del] TrimRightSpace.simps [simp del]
declare FieldsFrom.simps [simp del] SkipSpace.simps [simp del]

lemma addOrUpdate_values:
  "map Value (addOrUpdateEntry now es v) =
     (if v \<in> set (map Value es) then map Value es else map Value es @ [v])"
  by (induction es) auto

lemma addOrUpdate_distinct:
  "distinct (map Value es) \<Longrightarrow> distinct (map Value (addOrUpdateEntry now es v))"
  by (simp add: addOrUpdate_values)

lemma addOrUpdate_absent:
  "v \<notin> set (map Value es) \<Longrightarrow>
   addOrUpdateEntry now es v = es @ [\<lparr>Value = v, LastUsed = now, CreatedAt = now\<rparr>]"
  by (induction es) auto

lemma addOrUpdate_present:
  "v \<in> set (map Value es) \<Longrightarrow>
   \<exists>i < length es. Value (es ! i) = v \<and> (\<forall>j < i. Value (es ! j) \<noteq> v) \<and>
      addOrUpdateEntry now es v = es[i := (es ! i)\<lparr>LastUsed := now\<rparr>]"
proof (induction es)
  case Nil
  then show ?case by simp
next
  case (Cons e es)
  show ?case
  proof (cases "Value e = v")
    case True
    then have "Value ((e # es) ! 0) = v \<and> (\<forall>j < 0. Value ((e # es) ! j) \<noteq> v) \<and>
      addOrUpdateEntry now (e # es) v = (e # es)[0 := ((e # es) ! 0)\<lparr>LastUsed := now\<rparr>]"
      by simp
    then show ?thesis by blast
  next
    case False
    with Cons.prems have "v \<in> set (map Value es)" by auto
    from Cons.IH[OF this] obtain i where i: "i < length es" "Value (es ! i) = v"
      "\<forall>j < i. Value (es ! j) \<noteq> v"
      "addOrUpdateEntry now es v = es[i := (es ! i)\<lparr>LastUsed := now\<rparr>]"
      by blast
    have "\<forall>j < Suc i. Value ((e # es) ! j) \<noteq> v"
      using False i(3) by (auto simp: nth_Cons split: nat.splits)
    with i False have "Suc i < length (e # es) \<and> Value ((e # es) ! Suc i) = v \<and>
      (\<forall>j < Suc i. Value ((e # es) ! j) \<noteq> v) \<and>
      addOrUpdateEntry now (e # es) v = (e # es)[Suc i := ((e # es) ! Suc i)\<lparr>LastUsed := now\<rparr>]"
      by simp
    then show ?thesis by blast
  qed
qed

lemma addOrUpdate_created:
  "v \<in> set (map Value es) \<Longrightarrow> map CreatedAt (addOrUpdateEntry now es v) = map CreatedAt es"
  by (induction es) auto

lemma addOrUpdate_length:
  "length (addOrUpdateEntry now es v) =
     (if v \<in> set (map Value es) then length es else Suc (length es))"
  by (induction es) auto

lemma addOrUpdate_member: "v \<in> set (map Value (addOrUpdateEntry now es v))"
  by (simp add: addOrUpdate_values)

lemma addOrUpdate_fold_distinct:
  "distinct (map Value es) \<Longrightarrow>
   distinct (map Value (fold (\<lambda>(t, x) l. addOrUpdateEntry t l x) calls es))"
  by (induction calls arbitrary: es) (auto simp: addOrUpdate_distinct)

text \<open>
  Claim C3. \<open>addOrUpdateEntry\<close> keeps the values of a list distinct, after one call
  and after any sequence \<open>calls\<close> of calls (each with its own reading of the clock).
  When an entry with the value exists, the call rewrites the first such entry with
  \<open>LastUsed = now\<close> and nothing else: the list keeps its length, its values and its
  creation times. When none exists, the call appends exactly one entry whose
  \<open>CreatedAt\<close> and \<open>LastUsed\<close> are both \<open>now\<close>. Inserting the same value again, at a
  \<open>later\<close> reading, changes neither the length, the values nor the creation times.
\<close>

theorem addOrUpdateEntry_keeps_values_unique:
  "(distinct (map Value entries) \<longrightarrow>
      distinct (map Value (addOrUpdateEntry now entries v)) \<and>
      distinct (map Value (fold (\<lambda>(t, x) l. addOrUpdateEntry t l x) calls entries)))
   \<and> (v \<in> set (map Value entries) \<longrightarrow>
        (\<exists>i < length entries. Value (entries ! i) = v \<and> (\<forall>j < i. Value (entries ! j) \<noteq> v) \<and>
           addOrUpdateEntry now entries v = entries[i := (entries ! i)\<lparr>LastUsed := now\<rparr>]) \<and>
        length (addOrUpdateEntry now entries v) = length entries \<and>
        map Value (addOrUpdateEntry now entries v) = map Value entries \<and>
        map CreatedAt (addOrUpdateEntry now entries v) = map CreatedAt entries)
   \<and> (v \<notin> set (map Value entries) \<longrightarrow>
        addOrUpdateEntry now entries v =
          entries @ [\<lparr>Value = v, LastUsed = now, CreatedAt = now\<rparr>])
   \<and> length (addOrUpdateEntry later (addOrUpdateEntry now entries v) v) =
        length (addOrUpdateEntry now entries v)
   \<and> map Value (addOrUpdateEntry later (addOrUpdateEntry now entries v) v) =
        map Value (addOrUpdateEntry now entries v)
   \<and> map CreatedAt (addOrUpdateEntry later (addOrUpdateEntry now entries v) v) =
        map CreatedAt (addOrUpdateEntry now entries v)"
proof -
  have again: "v \<in> set (map Value (addOrUpdateEntry now entries v))"
    by (rule addOrUpdate_member)
  have a: "distinct (map Value entries) \<longrightarrow>
      distinct (map Value (addOrUpdateEntry now entries v)) \<and>
      distinct (map Value (fold (\<lambda>(t, x) l. addOrUpdateEntry t l x) calls entries))"
    by (simp add: addOrUpdate_distinct addOrUpdate_fold_distinct)
  have b: "v \<in> set (map Value entries) \<longrightarrow>
        (\<exists>i < length entries. Value (entries ! i) = v \<and> (\<forall>j < i. Value (entries ! j) \<noteq> v) \<and>
           addOrUpdateEntry now entries v = entries[i := (entries ! i)\<lparr>LastUsed := now\<rparr>]) \<and>
        length (addOrUpdateEntry now entries v) = length entries \<and>
        map Value (addOrUpdateEntry now entries v) = map Value entries \<and>
        map CreatedAt (addOrUpdateEntry now entries v) = map CreatedAt entries"
    using addOrUpdate_present[of v entries now]
    by (simp add: addOrUpdate_length addOrUpdate_values addOrUpdate_created)
  have c: "v \<notin> set (map Value entries) \<longrightarrow>
        addOrUpdateEntry now entries v =
          entries @ [\<lparr>Value = v, LastUsed = now, CreatedAt = now\<rparr>]"
    using addOrUpdate_absent[of v entries now] by blast
  have d: "length (addOrUpdateEntry later (addOrUpdateEntry now entries v) v) =
        length (addOrUpdateEntry now entries v)"
    using again by (simp only: addOrUpdate_length if_True)
  have e: "map Value (addOrUpdateEntry later (addOrUpdateEntry now entries v) v) =
        map Value (addOrUpdateEntry now entries v)"
    using again by (simp only: addOrUpdate_values if_True)
  have f: "map CreatedAt (addOrUpdateEntry later (addOrUpdateEntry now entries v) v) =
        map CreatedAt (addOrUpdateEntry now entries v)"
    using again by (rule addOrUpdate_created)
  from a b c d e f show ?thesis by blast
qed

theorem addOrUpdateEntry_keeps_values_unique_witness:
  "distinct (map Value twoEntries)
   \<and> ''bob'' \<in> set (map Value twoEntries)
   \<and> addOrUpdateEntry 7 twoEntries ''bob'' =
       [\<lparr>Value = ''alice'', LastUsed = 1, CreatedAt = 1\<rparr>,
        \<lparr>Value = ''bob'', LastUsed = 7, CreatedAt = 2\<rparr>]
   \<and> distinct (map Value (addOrUpdateEntry 7 twoEntries ''bob''))
   \<and> ''carol'' \<notin> set (map Value twoEntries)
   \<and> addOrUpdateEntry 7 twoEntries ''carol'' =
       twoEntries @ [\<lparr>Value = ''carol'', LastUsed = 7, CreatedAt = 7\<rparr>]
   \<and> distinct (map Value (fold (\<lambda>(t, x) l. addOrUpdateEntry t l x)
        [(7, ''carol''), (8, ''bob''), (9, ''carol'')] twoEntries))
   \<and> length (addOrUpdateEntry 9 (addOrUpdateEntry 7 twoEntries ''carol'') ''carol'') = 3"
  using addOrUpdateEntry_keeps_values_unique
          [of twoEntries 7 "''bob''" "[(7, ''carol''), (8, ''bob''), (9, ''carol'')]" 9]
        addOrUpdateEntry_keeps_values_unique [of twoEntries 7 "''carol''" "[]" 9]
  by (simp add: twoEntries_def)

section \<open>Properties of the selector\<close>

lemma Split_nonempty: "Split s c \<noteq> []"
  by (induction s) (auto split: list.splits)

lemma hd_Split: "hd (Split s c) = takeWhile (\<lambda>x. x \<noteq> c) s"
  by (induction s) (auto split: list.splits simp: Split_nonempty)

text \<open>
  Claim C7. When the picker ends with an exit status other than 0, \<open>runFzf\<close> returns
  the first line of what the picker printed (the typed query, as printed, up to the
  first newline) if the status is 1, the one the picker uses for "no match", and
  that line is not empty; in every other case the exit error itself is returned.
  A picker that could not be started, and a pipe that could not be made, are
  returned as errors too.
\<close>

theorem runFzf_exit_status:
  "(fzf w i items prompt = ExitError code output \<longrightarrow>
      runFzf w i items prompt =
        (if code = 1 \<and> takeWhile (\<lambda>c. c \<noteq> CHR 0x0A) output \<noteq> []
         then Inr (takeWhile (\<lambda>c. c \<noteq> CHR 0x0A) output)
         else Inl (ExitErr code)))
   \<and> (fzf w i items prompt = OtherError err \<longrightarrow> runFzf w i items prompt = Inl err)
   \<and> (fzf w i items prompt = PipeError err \<longrightarrow> runFzf w i items prompt = Inl err)"
  by (simp add: runFzf_def Let_def hd_Split Split_nonempty)

theorem runFzf_exit_status_witness:
  "fzf abnormalWorld 0 [] ''key'' = ExitError 1 (''alice'' @ [CHR 0x0A])
   \<and> runFzf abnormalWorld 0 [] ''key'' = Inr ''alice''
   \<and> fzf abnormalWorld 1 [] ''key'' = ExitError 1 [CHR 0x0A]
   \<and> runFzf abnormalWorld 1 [] ''key'' = Inl (ExitErr 1)
   \<and> fzf abnormalWorld 2 [] ''key'' = ExitError 130 []
   \<and> runFzf abnormalWorld 2 [] ''key'' = Inl (ExitErr 130)
   \<and> fzf abnormalWorld 3 [] ''key'' = OtherError (OSError ''executable file not found'')
   \<and> runFzf abnormalWorld 3 [] ''key'' = Inl (OSError ''executable file not found'')"
  using runFzf_exit_status [of abnormalWorld 0 "[]" "''key''" 1 "''alice'' @ [CHR 0x0A]"]
        runFzf_exit_status [of abnormalWorld 1 "[]" "''key''" 1 "[CHR 0x0A]"]
        runFzf_exit_status [of abnormalWorld 2 "[]" "''key''" 130 "[]"]
        runFzf_exit_status [of abnormalWorld 3 "[]" "''key''" _ _ "OSError ''executable file not found''"]
  by (simp add: abnormalWorld_def sessionWorld_def abnormalPicks_def)

section \<open>Properties of a run\<close>

lemma main_completed:
  assumes "flagParse w = Inr False"
    and "loadSSHConfig w 0 = Inr (config, n0)"
    and "SSHConfig.Keys config = first # others"
    and "runFzf w 0 (getValues (SSHConfig.Keys config)) ''key'' = Inr key"
    and "runFzf w 1 (getValues (SSHConfig.Accounts config)) ''account'' = Inr account"
    and "runFzf w 2 (getValues (SSHConfig.Hosts config)) ''host'' = Inr host"
    and "runFzf w 3 (getValues (SSHConfig.Jumps config)) ''jump'' = Inr jump"
  shows "savedData (main w) = Some
           (let d = fst (loadStoredData w); n1 = (if key \<noteq> Value first then Suc n0 else n0) in
            \<lparr>StoredData.Keys =
               (if key \<noteq> Value first then addOrUpdateEntry (Now w n0) (StoredData.Keys d) key
                else StoredData.Keys d),
             Accounts = addOrUpdateEntry (Now w n1) (StoredData.Accounts d) account,
             Hosts = addOrUpdateEntry (Now w (Suc n1)) (StoredData.Hosts d) host,
             Jumps =
               (if jump \<noteq> []
                then addOrUpdateEntry (Now w (Suc (Suc n1))) (StoredData.Jumps d) jump
                else StoredData.Jumps d)\<rparr>)
         \<and> composed (main w) =
             Some (key @ ''@'' @ account @ ''@'' @ host @ (if jump \<noteq> [] then ''@'' @ jump else []))"
  using assms by (auto simp: main_def Let_def split: option.splits)

lemma main_saved:
  assumes "savedData (main w) = Some d"
  shows "\<exists>config n0 first others key account host jump.
      flagParse w = Inr False
    \<and> loadSSHConfig w 0 = Inr (config, n0)
    \<and> SSHConfig.Keys config = first # others
    \<and> runFzf w 0 (getValues (SSHConfig.Keys config)) ''key'' = Inr key
    \<and> runFzf w 1 (getValues (SSHConfig.Accounts config)) ''account'' = Inr account
    \<and> runFzf w 2 (getValues (SSHConfig.Hosts config)) ''host'' = Inr host
    \<and> runFzf w 3 (getValues (SSHConfig.Jumps config)) ''jump'' = Inr jump"
  using assms
  by (auto simp: main_def Let_def split: if_splits sum.splits list.splits prod.splits option.splits)

lemma plain_load: "loadSSHConfig plainWorld 0 = Inr (exampleCandidates, 5)"
  by code_simp

lemma jump_load: "loadSSHConfig jumpWorld 0 = Inr (exampleCandidates, 5)"
  by code_simp

lemma history_load: "loadSSHConfig historyWorld 0 = Inr (historyCandidates, 5)"
  by code_simp

lemma history_main: "main historyWorld = Connected historySaved ''alice@svc1@foo''"
  by code_simp

text \<open>
  Claim C6. In a run whose four selections \<open>key\<close>, \<open>account\<close>, \<open>host\<close> and \<open>jump\<close>
  succeed, the command \<open>main\<close> composes is \<open>key@account@host\<close> when \<open>jump\<close> is empty
  and \<open>key@account@host@jump\<close> otherwise: the four strings as they are, whatever
  bytes they hold, joined by \<open>@\<close>.
\<close>

theorem command_composed_verbatim:
  assumes "flagParse w = Inr False"
    and "loadSSHConfig w 0 = Inr (config, n0)"
    and "SSHConfig.Keys config \<noteq> []"
    and "runFzf w 0 (getValues (SSHConfig.Keys config)) ''key'' = Inr key"
    and "runFzf w 1 (getValues (SSHConfig.Accounts config)) ''account'' = Inr account"
    and "runFzf w 2 (getValues (SSHConfig.Hosts config)) ''host'' = Inr host"
    and "runFzf w 3 (getValues (SSHConfig.Jumps config)) ''jump'' = Inr jump"
  shows "composed (main w) =
           Some (if jump = [] then key @ ''@'' @ account @ ''@'' @ host
                 else key @ ''@'' @ account @ ''@'' @ host @ ''@'' @ jump)"
proof -
  from assms(3) obtain first others where "SSHConfig.Keys config = first # others"
    by (cases "SSHConfig.Keys config") auto
  from main_completed[OF assms(1,2) this assms(4-7)] show ?thesis by simp
qed

theorem command_composed_verbatim_witness:
  "flagParse plainWorld = Inr False
   \<and> loadSSHConfig plainWorld 0 = Inr (exampleCandidates, 5)
   \<and> SSHConfig.Keys exampleCandidates \<noteq> []
   \<and> runFzf plainWorld 0 (getValues (SSHConfig.Keys exampleCandidates)) ''key'' = Inr ''alice''
   \<and> runFzf plainWorld 1 (getValues (SSHConfig.Accounts exampleCandidates)) ''account'' = Inr ''svc1''
   \<and> runFzf plainWorld 2 (getValues (SSHConfig.Hosts exampleCandidates)) ''host'' = Inr ''foo''
   \<and> runFzf plainWorld 3 (getValues (SSHConfig.Jumps exampleCandidates)) ''jump'' = Inr []
   \<and> composed (main plainWorld) = Some ''alice@svc1@foo''
   \<and> flagParse jumpWorld = Inr False
   \<and> loadSSHConfig jumpWorld 0 = Inr (exampleCandidates, 5)
   \<and> runFzf jumpWorld 0 (getValues (SSHConfig.Keys exampleCandidates)) ''key'' = Inr ''alice''
   \<and> runFzf jumpWorld 1 (getValues (SSHConfig.Accounts exampleCandidates)) ''account'' = Inr ''svc1''
   \<and> runFzf jumpWorld 2 (getValues (SSHConfig.Hosts exampleCandidates)) ''host'' = Inr ''foo''
   \<and> runFzf jumpWorld 3 (getValues (SSHConfig.Jumps exampleCandidates)) ''jump'' = Inr ''jmp1''
   \<and> composed (main jumpWorld) = Some ''alice@svc1@foo@jmp1''"
proof -
  have a1: "flagParse plainWorld = Inr False" by code_simp
  have a3: "SSHConfig.Keys exampleCandidates \<noteq> []" by code_simp
  have a4: "runFzf plainWorld 0 (getValues (SSHConfig.Keys exampleCandidates)) ''key'' = Inr ''alice''"
    by code_simp
  have a5: "runFzf plainWorld 1 (getValues (SSHConfig.Accounts exampleCandidates)) ''account'' = Inr ''svc1''"
    by code_simp
  have a6: "runFzf plainWorld 2 (getValues (SSHConfig.Hosts exampleCandidates)) ''host'' = Inr ''foo''"
    by code_simp
  have a7: "runFzf plainWorld 3 (getValues (SSHConfig.Jumps exampleCandidates)) ''jump'' = Inr []"
    by code_simp
  have b1: "flagParse jumpWorld = Inr False" by code_simp
  have b4: "runFzf jumpWorld 0 (getValues (SSHConfig.Keys exampleCandidates)) ''key'' = Inr ''alice''"
    by code_simp
  have b5: "runFzf jumpWorld 1 (getValues (SSHConfig.Accounts exampleCandidates)) ''account'' = Inr ''svc1''"
    by code_simp
  have b6: "runFzf jumpWorld 2 (getValues (SSHConfig.Hosts exampleCandidates)) ''host'' = Inr ''foo''"
    by code_simp
  have b7: "runFzf jumpWorld 3 (getValues (SSHConfig.Jumps exampleCandidates)) ''jump'' = Inr ''jmp1''"
    by code_simp
  have c1: "composed (main plainWorld) = Some ''alice@svc1@foo''"
    using command_composed_verbatim[OF a1 plain_load a3 a4 a5 a6 a7] by simp
  have c2: "composed (main jumpWorld) = Some ''alice@svc1@foo@jmp1''"
    using command_composed_verbatim[OF b1 jump_load a3 b4 b5 b6 b7] by simp
  from a1 plain_load a3 a4 a5 a6 a7 b1 jump_load b4 b5 b6 b7 c1 c2 show ?thesis by blast
qed

text \<open>
  Claim C9. In every run that reaches \<open>saveStoredData\<close> with an empty jump
  selection, the list of jumps passed to \<open>saveStoredData\<close> is the list that
  \<open>loadStoredData\<close> returned: the run adds no entry to it, in particular none with
  the empty string as its value, and refreshes none.
\<close>

theorem empty_jump_not_recorded:
  assumes "savedData (main w) = Some d"
    and "loadSSHConfig w 0 = Inr (config, n)"
    and "runFzf w 3 (getValues (SSHConfig.Jumps config)) ''jump'' = Inr []"
  shows "StoredData.Jumps d = StoredData.Jumps (fst (loadStoredData w))"
proof -
  from main_saved[OF assms(1)] obtain config' n0 first others key account host jump where
    h: "flagParse w = Inr False" "loadSSHConfig w 0 = Inr (config', n0)"
       "SSHConfig.Keys config' = first # others"
       "runFzf w 0 (getValues (SSHConfig.Keys config')) ''key'' = Inr key"
       "runFzf w 1 (getValues (SSHConfig.Accounts config')) ''account'' = Inr account"
       "runFzf w 2 (getValues (SSHConfig.Hosts config')) ''host'' = Inr host"
       "runFzf w 3 (getValues (SSHConfig.Jumps config')) ''jump'' = Inr jump"
    by blast
  from h(2) assms(2) have same: "config' = config" by simp
  with h(7) assms(3) have "jump = []" by simp
  with main_completed[OF h] assms(1) show ?thesis by (auto simp: Let_def)
qed

theorem empty_jump_not_recorded_witness:
  "savedData (main historyWorld) = Some historySaved
   \<and> loadSSHConfig historyWorld 0 = Inr (historyCandidates, 5)
   \<and> runFzf historyWorld 3 (getValues (SSHConfig.Jumps historyCandidates)) ''jump'' = Inr []
   \<and> StoredData.Jumps historySaved = StoredData.Jumps (fst (loadStoredData historyWorld))
   \<and> StoredData.Jumps historySaved = [\<lparr>Value = ''jmp0'', LastUsed = 23, CreatedAt = 13\<rparr>]"
proof -
  have a: "savedData (main historyWorld) = Some historySaved" by (simp add: history_main)
  have c: "runFzf historyWorld 3 (getValues (SSHConfig.Jumps historyCandidates)) ''jump'' = Inr []"
    by code_simp
  have e: "StoredData.Jumps historySaved = [\<lparr>Value = ''jmp0'', LastUsed = 23, CreatedAt = 13\<rparr>]"
    by (simp add: historySaved_def)
  from a history_load c empty_jump_not_recorded[OF a history_load c] e show ?thesis by blast
qed

text \<open>
  Claim C10 does not hold of the code. In \<open>noUserWorld\<close> the user lookup fails and
  no history exists, so the key candidate list is empty; the picker still returns
  the typed query, and \<open>main\<close> then reads \<open>config.Keys[0]\<close> of the empty list, which
  panics.
\<close>

theorem main_panics_on_empty_keys:
  "main noUserWorld = Panic ''index out of range [0] with length 0''"
  by code_simp

section \<open>Properties of the candidate lists\<close>

lemma take_eq_length: "take n s = p \<Longrightarrow> length p = n \<Longrightarrow> n \<le> length s"
  by (metis length_take min.cobounded1)

lemma HasPrefix_take: "HasPrefix s p = (take (length p) s = p)"
  unfolding HasPrefix_def using take_eq_length[of "length p" s p] by auto

lemma prefix_Host:
  "HasPrefix s ''Host '' = (take 5 s = ''Host '')"
  "TrimPrefix s ''Host '' = (if take 5 s = ''Host '' then drop 5 s else s)"
  by (simp_all add: HasPrefix_take TrimPrefix_def eval_nat_numeral)

lemma getValues_simps:
  "getValues [] = []"
  "getValues (xs @ ys) = getValues xs @ getValues ys"
  "getValues (x # xs) = Value x # getValues xs"
  by (simp_all add: getValues_def)

lemma Contains_single: "Contains s [c] = (c \<in> set s)"
  by (induction s) (auto simp: HasPrefix_def)

lemma appendHosts_hosts:
  "getValues (SSHConfig.Hosts (fst (appendHosts clock hs cn))) =
     getValues (SSHConfig.Hosts (fst cn)) @ hs"
  by (induction clock hs cn rule: appendHosts.induct)
     (simp_all add: getValues_def createStoredEntry_def)

lemma appendHosts_others:
  "SSHConfig.Keys (fst (appendHosts clock hs cn)) = SSHConfig.Keys (fst cn)
   \<and> SSHConfig.Accounts (fst (appendHosts clock hs cn)) = SSHConfig.Accounts (fst cn)
   \<and> SSHConfig.Jumps (fst (appendHosts clock hs cn)) = SSHConfig.Jumps (fst cn)"
  by (induction clock hs cn rule: appendHosts.induct) simp_all

lemma configLine_hosts:
  "getValues (SSHConfig.Hosts (fst (configLine clock text cn))) =
     getValues (SSHConfig.Hosts (fst cn)) @ hostNames text"
  by (simp add: configLine_def hostNames_def Let_def prefix_Host Contains_single appendHosts_hosts)

lemma configLine_keys:
  "SSHConfig.Keys (fst (configLine clock text cn)) = SSHConfig.Keys (fst cn)"
  by (simp add: configLine_def Let_def appendHosts_others)

lemma scanConfig_hosts:
  "getValues (SSHConfig.Hosts (fst (scanConfig clock lines cn))) =
     getValues (SSHConfig.Hosts (fst cn)) @ concat (map hostNames lines)"
  by (induction lines arbitrary: cn) (simp_all add: configLine_hosts)

lemma scanConfig_keys:
  "SSHConfig.Keys (fst (scanConfig clock lines cn)) = SSHConfig.Keys (fst cn)"
  by (induction lines arbitrary: cn) (simp_all add: configLine_keys)

lemma trim_examples:
  "TrimSpace ''Host foo bar'' = ''Host foo bar''"
  "TrimSpace ''Host *wild*'' = ''Host *wild*''"
  "TrimSpace ''User svc1'' = ''User svc1''"
  "TrimSpace ''ProxyJump jmp1'' = ''ProxyJump jmp1''"
  "Fields ''foo bar'' = [''foo'', ''bar'']"
  by code_simp+

lemma scanConfig_example:
  "scanConfig clock exampleConfig (config, n) =
     (config\<lparr>SSHConfig.Hosts := SSHConfig.Hosts config @
                 [createStoredEntry (clock n) ''foo'', createStoredEntry (clock (Suc n)) ''bar''],
             SSHConfig.Accounts := SSHConfig.Accounts config @
                 [createStoredEntry (clock (Suc (Suc n))) ''svc1''],
             SSHConfig.Jumps := SSHConfig.Jumps config @
                 [createStoredEntry (clock (Suc (Suc (Suc n)))) ''jmp1'']\<rparr>,
      Suc (Suc (Suc (Suc n))))"
  by (simp add: exampleConfig_def configLine_def Let_def trim_examples HasPrefix_def
        TrimPrefix_def)

lemma loadSSHConfig_keys:
  assumes "loadSSHConfig w n = Inr (config, n')"
  shows "SSHConfig.Keys config =
     (case Current w of Inr u \<Rightarrow> [createStoredEntry (Now w n) u] | Inl e \<Rightarrow> [])
     @ (if snd (loadStoredData w) = None then StoredData.Keys (fst (loadStoredData w)) else [])"
  using assms
  by (auto simp: loadSSHConfig_def Let_def scanConfig_keys split: sum.splits option.splits)

lemma loadSSHConfig_hosts:
  assumes "UserHomeDir w = Inr home"
    and "OpenLines w (Join w [home, ''.ssh'', ''config'']) = Some lines"
    and "loadSSHConfig w n = Inr (config, n')"
  shows "getValues (SSHConfig.Hosts config) =
     concat (map hostNames lines)
     @ (if snd (loadStoredData w) = None
        then getValues (StoredData.Hosts (fst (loadStoredData w))) else [])"
  using assms
  by (auto simp: loadSSHConfig_def Let_def scanConfig_hosts getValues_simps split: sum.splits)

lemma loadSSHConfig_example:
  assumes "UserHomeDir w = Inr home"
    and "OpenLines w (Join w [home, ''.ssh'', ''config'']) = Some exampleConfig"
    and "loadSSHConfig w n = Inr (config, n')"
  shows "getValues (SSHConfig.Hosts config) =
           [''foo'', ''bar''] @ (if snd (loadStoredData w) = None
              then getValues (StoredData.Hosts (fst (loadStoredData w))) else [])
       \<and> ''svc1'' \<in> set (getValues (SSHConfig.Accounts config))
       \<and> ''jmp1'' \<in> set (getValues (SSHConfig.Jumps config))"
  using assms
  by (auto simp: loadSSHConfig_def Let_def scanConfig_example getValues_simps createStoredEntry_def
      split: sum.splits)

text \<open>
  Claim C1, as the code has it. The claim says that a \<open>Host\<close> line contributes every
  name on it but those that contain a wildcard. The code tests the whole text after
  the keyword for a \<open>*\<close> before it splits it, so one pattern on a line keeps every
  name of that line out: the line \<open>Host foo *bar\<close> contributes nothing, though
  \<open>foo\<close> holds no wildcard.
\<close>

theorem host_line_with_pattern_contributes_nothing:
  "HasPrefix (TrimSpace ''Host foo *bar'') ''Host ''
   \<and> Fields (TrimPrefix (TrimSpace ''Host foo *bar'') ''Host '') = [''foo'', ''*bar'']
   \<and> \<not> Contains ''foo'' ''*''
   \<and> OpenLines mixedHostWorld ''/home/alice/.ssh/config'' = Some [''Host foo *bar'']
   \<and> loadSSHConfig mixedHostWorld 0 =
       Inr (\<lparr>SSHConfig.Keys = [createStoredEntry 1000 ''alice''], Accounts = [],
             Hosts = [], Jumps = []\<rparr>, 1)"
  by code_simp

text \<open>
  Claim C1, amended. The host candidates are, in order, what each line of the
  client's configuration contributes, followed by the hosts of the history when it
  loaded without error. A line that starts, once trimmed, with \<open>Host\<close> and a space
  contributes the white-space-separated words after the keyword, and nothing at all
  when a \<open>*\<close> stands anywhere after the keyword; every other line contributes no
  host. For the configuration \<open>Host foo bar\<close>, \<open>Host *wild*\<close>, \<open>User svc1\<close>,
  \<open>ProxyJump jmp1\<close> the hosts contributed are exactly \<open>foo\<close> and \<open>bar\<close>, the
  accounts contain \<open>svc1\<close> and the jumps contain \<open>jmp1\<close>.
\<close>

theorem host_lines_contribute:
  assumes "UserHomeDir w = Inr home"
    and "OpenLines w (Join w [home, ''.ssh'', ''config'']) = Some lines"
    and "loadSSHConfig w n = Inr (config, n')"
  shows "getValues (SSHConfig.Hosts config) =
           concat (map hostNames lines)
           @ (if snd (loadStoredData w) = None
              then getValues (StoredData.Hosts (fst (loadStoredData w))) else [])
       \<and> (lines = exampleConfig \<longrightarrow>
            getValues (SSHConfig.Hosts config) =
              [''foo'', ''bar''] @ (if snd (loadStoredData w) = None
                 then getValues (StoredData.Hosts (fst (loadStoredData w))) else [])
            \<and> ''svc1'' \<in> set (getValues (SSHConfig.Accounts config))
            \<and> ''jmp1'' \<in> set (getValues (SSHConfig.Jumps config)))"
  using loadSSHConfig_hosts[OF assms] loadSSHConfig_example[OF assms(1) _ assms(3)] assms(2)
  by blast

theorem host_lines_contribute_witness:
  "UserHomeDir plainWorld = Inr ''/home/alice''
   \<and> OpenLines plainWorld (Join plainWorld [''/home/alice'', ''.ssh'', ''config'']) = Some exampleConfig
   \<and> loadSSHConfig plainWorld 0 = Inr (exampleCandidates, 5)
   \<and> concat (map hostNames exampleConfig) = [''foo'', ''bar'']
   \<and> hostNames ''Host foo *bar'' = []
   \<and> snd (loadStoredData plainWorld) = None
   \<and> getValues (StoredData.Hosts (fst (loadStoredData plainWorld))) = []
   \<and> getValues (SSHConfig.Hosts exampleCandidates) = [''foo'', ''bar'']
   \<and> ''svc1'' \<in> set (getValues (SSHConfig.Accounts exampleCandidates))
   \<and> ''jmp1'' \<in> set (getValues (SSHConfig.Jumps exampleCandidates))"
proof -
  have a: "UserHomeDir plainWorld = Inr ''/home/alice''" by code_simp
  have b: "OpenLines plainWorld (Join plainWorld [''/home/alice'', ''.ssh'', ''config'']) =
             Some exampleConfig" by code_simp
  have c: "concat (map hostNames exampleConfig) = [''foo'', ''bar'']" by code_simp
  have d: "hostNames ''Host foo *bar'' = []" by code_simp
  have e: "snd (loadStoredData plainWorld) = None" by code_simp
  have f: "getValues (StoredData.Hosts (fst (loadStoredData plainWorld))) = []" by code_simp
  from host_lines_contribute[OF a b plain_load] a b plain_load c d e f show ?thesis by simp
qed

text \<open>
  Claim C2, as the code has it. The claim says that the entry for the current user
  is among the key candidates in every run. \<open>loadSSHConfig\<close> appends it only when
  the user lookup succeeds: in \<open>noUserWorld\<close> the lookup fails, and the key
  candidate list is empty.
\<close>

theorem no_current_user_no_key_candidate:
  "Current noUserWorld = Inl (OSError ''user: unknown userid 1000'')
   \<and> loadSSHConfig noUserWorld 0 =
       Inr (\<lparr>SSHConfig.Keys = [], Accounts = [], Hosts = [], Jumps = []\<rparr>, 0)"
  by code_simp

text \<open>
  Claim C2, amended. Whenever the user lookup succeeds with the name \<open>u\<close>, the entry
  made for \<open>u\<close> is the first key candidate, whatever the history holds and whether
  or not it could be loaded; and in a run that reaches \<open>saveStoredData\<close> after the
  key selection returned exactly \<open>u\<close>, the list of keys passed to \<open>saveStoredData\<close>
  is the list \<open>loadStoredData\<close> returned: the run writes no entry for \<open>u\<close>.
\<close>

theorem current_user_first_and_not_recorded:
  assumes "Current w = Inr u"
    and "loadSSHConfig w 0 = Inr (config, n)"
  shows "(\<exists>others. SSHConfig.Keys config = createStoredEntry (Now w 0) u # others)
       \<and> hd (getValues (SSHConfig.Keys config)) = u
       \<and> (\<forall>d. savedData (main w) = Some d
              \<longrightarrow> runFzf w 0 (getValues (SSHConfig.Keys config)) ''key'' = Inr u
              \<longrightarrow> StoredData.Keys d = StoredData.Keys (fst (loadStoredData w)))"
proof -
  from loadSSHConfig_keys[OF assms(2)] assms(1)
  have keys: "SSHConfig.Keys config = createStoredEntry (Now w 0) u #
      (if snd (loadStoredData w) = None then StoredData.Keys (fst (loadStoredData w)) else [])"
    by simp
  then have first: "\<exists>others. SSHConfig.Keys config = createStoredEntry (Now w 0) u # others"
    by blast
  from keys have hd: "hd (getValues (SSHConfig.Keys config)) = u"
    by (simp add: getValues_def createStoredEntry_def)
  have kept: "StoredData.Keys d = StoredData.Keys (fst (loadStoredData w))"
    if saved: "savedData (main w) = Some d"
      and pick: "runFzf w 0 (getValues (SSHConfig.Keys config)) ''key'' = Inr u" for d
  proof -
    from main_saved[OF saved] obtain config' n0 first' others key account host jump where
      h: "flagParse w = Inr False" "loadSSHConfig w 0 = Inr (config', n0)"
         "SSHConfig.Keys config' = first' # others"
         "runFzf w 0 (getValues (SSHConfig.Keys config')) ''key'' = Inr key"
         "runFzf w 1 (getValues (SSHConfig.Accounts config')) ''account'' = Inr account"
         "runFzf w 2 (getValues (SSHConfig.Hosts config')) ''host'' = Inr host"
         "runFzf w 3 (getValues (SSHConfig.Jumps config')) ''jump'' = Inr jump"
      by blast
    from h(2) assms(2) have same: "config' = config" by simp
    with h(4) pick have k: "key = u" by simp
    from same h(3) keys have "Value first' = u" by (auto simp: createStoredEntry_def)
    with k main_completed[OF h] saved show ?thesis by (auto simp: Let_def)
  qed
  from first hd kept show ?thesis by blast
qed

theorem current_user_first_and_not_recorded_witness:
  "Current historyWorld = Inr ''alice''
   \<and> loadSSHConfig historyWorld 0 = Inr (historyCandidates, 5)
   \<and> getValues (SSHConfig.Keys historyCandidates) = [''alice'', ''bob'']
   \<and> savedData (main historyWorld) = Some historySaved
   \<and> runFzf historyWorld 0 (getValues (SSHConfig.Keys historyCandidates)) ''key'' = Inr ''alice''
   \<and> StoredData.Keys historySaved = StoredData.Keys (fst (loadStoredData historyWorld))
   \<and> getValues (StoredData.Keys historySaved) = [''bob'']"
proof -
  have a: "Current historyWorld = Inr ''alice''" by code_simp
  have b: "getValues (SSHConfig.Keys historyCandidates) = [''alice'', ''bob'']" by code_simp
  have c: "savedData (main historyWorld) = Some historySaved" by (simp add: history_main)
  have d: "runFzf historyWorld 0 (getValues (SSHConfig.Keys historyCandidates)) ''key'' = Inr ''alice''"
    by code_simp
  have e: "getValues (StoredData.Keys historySaved) = [''bob'']" by code_simp
  from current_user_first_and_not_recorded[OF a history_load] a history_load b c d e
  show ?thesis by blast
qed

section \<open>Properties of the confirmation\<close>

lemma spaceLen_Nil: "spaceLen [] = 0"
  by (simp add: spaceLen_def)

lemma spaceLen_newline: "spaceLen (CHR 0x0A # t) = 1"
  by (simp add: spaceLen_def asciiSpace_def)

lemma spaceLen_append_newline:
  assumes "s \<noteq> []" and "t = [] \<or> hd t = CHR 0x0A"
  shows "spaceLen (s @ t) = spaceLen s"
proof (cases t)
  case Nil
  then show ?thesis by simp
next
  case (Cons x t')
  with assms(2) have x: "x = CHR 0x0A" by simp
  from assms(1) obtain a s1 where s: "s = a # s1" by (cases s) auto
  show ?thesis
  proof (cases s1)
    case Nil
    with s Cons x show ?thesis
      by (simp add: spaceLen_def space2_def space3_def)
  next
    case c2: (Cons b s2)
    show ?thesis
    proof (cases s2)
      case Nil
      with s c2 Cons x show ?thesis
        by (simp add: spaceLen_def space2_def space3_def)
    next
      case c3: (Cons c s3)
      with s c2 show ?thesis
        by (simp add: spaceLen_def)
    qed
  qed
qed

lemma readToken_append_newline:
  assumes "CHR 0x0A \<notin> set s" and "t = [] \<or> hd t = CHR 0x0A"
  shows "readToken (s @ t) = readToken s"
  using assms(1)
proof (induction s)
  case Nil
  show ?case
  proof (cases t)
    case Nil
    then show ?thesis by simp
  next
    case (Cons x t')
    with assms(2) show ?thesis by (simp add: spaceLen_newline)
  qed
next
  case (Cons c s)
  have "spaceLen ((c # s) @ t) = spaceLen (c # s)"
    by (rule spaceLen_append_newline[OF _ assms(2)]) simp
  with Cons show ?case by simp
qed

lemma readToken_space: "spaceLen s \<noteq> 0 \<Longrightarrow> readToken s = []"
  by (cases s) simp_all

lemma readToken_letter: "s \<noteq> [] \<Longrightarrow> spaceLen s = 0 \<Longrightarrow> readToken s = hd s # readToken (tl s)"
  by (cases s) simp_all

lemma FieldsFrom_first:
  "cur \<noteq> [] \<or> (s \<noteq> [] \<and> spaceLen s = 0) \<Longrightarrow> \<exists>fs. FieldsFrom cur s = (cur @ readToken s) # fs"
proof (induction cur s rule: FieldsFrom.induct)
  case (1 cur s)
  show ?case
  proof (cases "s = []")
    case True
    with "1.prems" show ?thesis by (simp add: FieldsFrom.simps[of cur "[]"])
  next
    case False
    show ?thesis
    proof (cases "spaceLen s = 0")
      case True
      from "1.IH"(1)[OF False True] obtain fs where
        "FieldsFrom (cur @ [hd s]) (tl s) = ((cur @ [hd s]) @ readToken (tl s)) # fs" by auto
      with False True show ?thesis
        by (simp add: FieldsFrom.simps[of cur s] readToken_letter)
    next
      case sp: False
      with "1.prems" have "cur \<noteq> []" by simp
      with False sp show ?thesis
        by (simp add: FieldsFrom.simps[of cur s] readToken_space)
    qed
  qed
qed

lemma Scanln_first_field:
  assumes "t = [] \<or> hd t = CHR 0x0A"
  shows "CHR 0x0A \<notin> set s \<Longrightarrow>
     (case SkipSpace (s @ t) of None \<Rightarrow> [] | Some r \<Rightarrow> readToken r) =
     (case FieldsFrom [] s of [] \<Rightarrow> [] | f # fs \<Rightarrow> f)"
proof (induction s rule: TrimLeftSpace.induct)
  case (1 s)
  show ?case
  proof (cases "s = []")
    case True
    show ?thesis
    proof (cases t)
      case Nil
      with True show ?thesis by (simp add: SkipSpace.simps[of "[]"] FieldsFrom.simps[of "[]" "[]"])
    next
      case (Cons x t')
      with assms True show ?thesis
        by (simp add: SkipSpace.simps[of "CHR 0x0A # t'"] FieldsFrom.simps[of "[]" "[]"])
    qed
  next
    case False
    then have hd: "hd (s @ t) \<noteq> CHR 0x0A" using "1.prems" by (cases s) auto
    have len: "spaceLen (s @ t) = spaceLen s" by (rule spaceLen_append_newline[OF False assms])
    show ?thesis
    proof (cases "spaceLen s = 0")
      case True
      from FieldsFrom_first[of "[]" s] False True obtain fs where
        f: "FieldsFrom [] s = readToken s # fs" by auto
      from False hd len True have "SkipSpace (s @ t) = Some (s @ t)"
        by (simp add: SkipSpace.simps[of "s @ t"])
      with f show ?thesis by (simp add: readToken_append_newline[OF "1.prems" assms])
    next
      case sp: False
      have le: "spaceLen s \<le> length s" by (rule spaceLen_le)
      have "CHR 0x0A \<notin> set (drop (spaceLen s) s)" using "1.prems" by (meson in_set_dropD)
      from "1.IH"[OF sp this]
      have ih: "(case SkipSpace (drop (spaceLen s) s @ t) of None \<Rightarrow> [] | Some r \<Rightarrow> readToken r) =
        (case FieldsFrom [] (drop (spaceLen s) s) of [] \<Rightarrow> [] | f # fs \<Rightarrow> f)" .
      from False hd len sp le have "SkipSpace (s @ t) = SkipSpace (drop (spaceLen s) s @ t)"
        by (simp add: SkipSpace.simps[of "s @ t"])
      moreover from False sp have "FieldsFrom [] s = FieldsFrom [] (drop (spaceLen s) s)"
        by (simp add: FieldsFrom.simps[of "[]" s])
      ultimately show ?thesis using ih by simp
    qed
  qed
qed

lemma ToLower_Nil_iff: "ToLower s = [] \<longleftrightarrow> s = []"
  by (cases s) auto

lemma upper_y:
  assumes "(0x41::nat) \<le> of_char c" "of_char c \<le> (0x5A::nat)"
  shows "char_of (of_char c + (0x20::nat)) = CHR ''y'' \<longleftrightarrow> c = CHR ''Y''"
proof
  assume "char_of (of_char c + (0x20::nat)) = CHR ''y''"
  then have "of_char (char_of (of_char c + (0x20::nat)) :: char) = (of_char (CHR ''y'') :: nat)"
    by simp
  then have "(of_char c + (0x20::nat)) mod 256 = 121" by (simp add: of_char_of)
  with assms have "of_char c = (89::nat)" by simp
  then have "char_of (of_char c :: nat) = (char_of (89::nat) :: char)" by simp
  moreover have "(char_of (89::nat) :: char) = CHR ''Y''" by code_simp
  ultimately show "c = CHR ''Y''" by simp
next
  assume "c = CHR ''Y''"
  moreover have "(char_of (of_char (CHR ''Y'') + (0x20::nat)) :: char) = CHR ''y''" by code_simp
  ultimately show "char_of (of_char c + (0x20::nat)) = CHR ''y''" by simp
qed

lemma ToLower_y: "ToLower f = ''y'' \<longleftrightarrow> f = ''y'' \<or> f = ''Y''"
proof (cases f)
  case Nil
  then show ?thesis by simp
next
  case (Cons c s)
  show ?thesis
  proof (cases "(0x41::nat) \<le> of_char c \<and> of_char c \<le> (0x5A::nat)")
    case True
    then have "char_of (of_char c + (0x20::nat)) = CHR ''y'' \<longleftrightarrow> c = CHR ''Y''"
      using upper_y by blast
    with True Cons show ?thesis by (auto simp: ToLower_Nil_iff)
  next
    case False
    with Cons show ?thesis by (auto simp: ToLower_Nil_iff)
  qed
qed

lemma space2_not_ascii: "p \<in> set space2 \<Longrightarrow> \<not> asciiSpace (hd p) \<and> \<not> asciiSpace (last p) \<and> length p = 2"
  by (auto simp: space2_def asciiSpace_def)

lemma space3_not_ascii:
  "p \<in> set space3 \<Longrightarrow> \<not> asciiSpace (hd p) \<and> \<not> asciiSpace (last p) \<and> length p = 3
     \<and> take 2 p \<notin> set space2 \<and> drop 1 p \<notin> set space2"
  by (auto simp: space3_def space2_def asciiSpace_def)

lemma spaceLen_rune: "isSpaceRune p \<Longrightarrow> spaceLen (p @ t) = length p"
  unfolding isSpaceRune_def
proof (elim disjE exE conjE)
  fix c assume "p = [c]" "asciiSpace c"
  then show ?thesis by (simp add: spaceLen_def)
next
  assume p: "p \<in> set space2"
  from space2_not_ascii[OF p] have "p \<noteq> []" by auto
  with space2_not_ascii[OF p] p show ?thesis by (simp add: spaceLen_def)
next
  assume p: "p \<in> set space3"
  from space3_not_ascii[OF p] have ne: "p \<noteq> []" by auto
  with space3_not_ascii[OF p] p show ?thesis by (simp add: spaceLen_def)
qed

lemma lastSpaceLen_rune: "isSpaceRune p \<Longrightarrow> lastSpaceLen (x @ p) = length p"
  unfolding isSpaceRune_def
proof (elim disjE exE conjE)
  fix c assume "p = [c]" "asciiSpace c"
  then show ?thesis by (simp add: lastSpaceLen_def)
next
  assume p: "p \<in> set space2"
  from space2_not_ascii[OF p] have "p \<noteq> []" by auto
  with space2_not_ascii[OF p] p show ?thesis by (simp add: lastSpaceLen_def)
next
  assume p: "p \<in> set space3"
  from space3_not_ascii[OF p] have ne: "p \<noteq> []" by auto
  with space3_not_ascii[OF p] p show ?thesis by (simp add: lastSpaceLen_def)
qed

lemma spaceLen_take: "spaceLen s \<noteq> 0 \<Longrightarrow> isSpaceRune (take (spaceLen s) s)"
  by (cases s) (auto simp: spaceLen_def isSpaceRune_def split: if_splits)

lemma drop_last: "s \<noteq> [] \<Longrightarrow> drop (length s - Suc 0) s = [last s]"
proof -
  assume "s \<noteq> []"
  then have "butlast s @ [last s] = s" by simp
  then have "[last s] = drop (length (butlast s)) s" by (metis append_eq_conv_conj)
  then show ?thesis by simp
qed

lemma lastSpaceLen_drop:
  "lastSpaceLen s \<noteq> 0 \<Longrightarrow> isSpaceRune (drop (length s - lastSpaceLen s) s)"
  by (auto simp: lastSpaceLen_def isSpaceRune_def drop_last split: if_splits)

lemma spaces_cons: "spaces s \<Longrightarrow> isSpaceRune p \<Longrightarrow> spaces (p @ s)"
proof (induction s rule: spaces.induct)
  case spaces_Nil
  from spaces_snoc[OF spaces.spaces_Nil this] show ?case by simp
next
  case (spaces_snoc s q)
  from spaces.spaces_snoc[OF spaces_snoc.IH[OF spaces_snoc.prems] spaces_snoc.hyps(2)]
  show ?case by simp
qed

lemma isSpaceRune_nonempty: "isSpaceRune p \<Longrightarrow> p \<noteq> []"
  by (auto simp: isSpaceRune_def space2_def space3_def)

lemma TrimRightSpace_spaces: "spaces t \<Longrightarrow> TrimRightSpace (f @ t) = TrimRightSpace f"
proof (induction t rule: spaces.induct)
  case spaces_Nil
  show ?case by simp
next
  case (spaces_snoc s p)
  have len: "lastSpaceLen ((f @ s) @ p) = length p" by (rule lastSpaceLen_rune[OF spaces_snoc.hyps(2)])
  from isSpaceRune_nonempty[OF spaces_snoc.hyps(2)] have "length p \<noteq> 0" by simp
  with len have "TrimRightSpace ((f @ s) @ p) = TrimRightSpace (f @ s)"
    by (simp add: TrimRightSpace.simps[of "(f @ s) @ p"] del: append_assoc)
  with spaces_snoc.IH show ?case by simp
qed

lemma no_fields_spaces: "FieldsFrom [] s = [] \<Longrightarrow> spaces s"
proof (induction s rule: TrimLeftSpace.induct)
  case (1 s)
  show ?case
  proof (cases "spaceLen s = 0")
    case True
    have "s = []"
    proof (rule ccontr)
      assume "s \<noteq> []"
      with True FieldsFrom_first[of "[]" s] "1.prems" show False by auto
    qed
    then show ?thesis by (simp add: spaces_Nil)
  next
    case False
    then have ne: "s \<noteq> []" by (auto simp: spaceLen_def)
    from False ne "1.prems" have "FieldsFrom [] (drop (spaceLen s) s) = []"
      by (simp add: FieldsFrom.simps[of "[]" s])
    from "1.IH"[OF False this] have "spaces (drop (spaceLen s) s)" .
    from spaces_cons[OF this spaceLen_take[OF False]] show ?thesis by simp
  qed
qed

lemma no_fields_TrimLeft: "FieldsFrom [] s = [] \<Longrightarrow> TrimLeftSpace s = []"
proof (induction s rule: TrimLeftSpace.induct)
  case (1 s)
  show ?case
  proof (cases "spaceLen s = 0")
    case True
    have "s = []"
    proof (rule ccontr)
      assume "s \<noteq> []"
      with True FieldsFrom_first[of "[]" s] "1.prems" show False by auto
    qed
    then show ?thesis by (simp add: TrimLeftSpace.simps[of "[]"] spaceLen_def)
  next
    case False
    then have ne: "s \<noteq> []" by (auto simp: spaceLen_def)
    from False ne "1.prems" have "FieldsFrom [] (drop (spaceLen s) s) = []"
      by (simp add: FieldsFrom.simps[of "[]" s])
    from "1.IH"[OF False this] False show ?thesis by (simp add: TrimLeftSpace.simps[of s])
  qed
qed

lemma TrimLeft_fields: "FieldsFrom [] (TrimLeftSpace s) = FieldsFrom [] s"
proof (induction s rule: TrimLeftSpace.induct)
  case (1 s)
  show ?case
  proof (cases "spaceLen s = 0")
    case True
    then show ?thesis by (simp add: TrimLeftSpace.simps[of s])
  next
    case False
    then have ne: "s \<noteq> []" by (auto simp: spaceLen_def)
    from "1.IH"[OF False] False ne show ?thesis
      by (simp add: TrimLeftSpace.simps[of s] FieldsFrom.simps[of "[]" s])
  qed
qed

lemma TrimLeft_head: "spaceLen (TrimLeftSpace s) = 0"
proof (induction s rule: TrimLeftSpace.induct)
  case (1 s)
  then show ?case by (cases "spaceLen s = 0") (simp_all add: TrimLeftSpace.simps[of s])
qed

lemma one_field_split:
  "FieldsFrom cur s = [g] \<Longrightarrow> cur \<noteq> [] \<or> (s \<noteq> [] \<and> spaceLen s = 0) \<Longrightarrow>
   \<exists>tok t. s = tok @ t \<and> g = cur @ tok \<and> (\<forall>i < length tok. spaceLen (drop i tok @ t) = 0)
     \<and> FieldsFrom [] t = []"
proof (induction cur s arbitrary: g rule: FieldsFrom.induct)
  case (1 cur s)
  show ?case
  proof (cases "s = []")
    case True
    with "1.prems" have "g = cur" by (simp add: FieldsFrom.simps[of cur "[]"] split: if_splits)
    with True show ?thesis by (simp add: FieldsFrom.simps[of "[]" "[]"])
  next
    case False
    show ?thesis
    proof (cases "spaceLen s = 0")
      case True
      with False "1.prems"(1) have "FieldsFrom (cur @ [hd s]) (tl s) = [g]"
        by (simp add: FieldsFrom.simps[of cur s])
      from "1.IH"(1)[OF False True this] obtain tok t where
        h: "tl s = tok @ t" "g = (cur @ [hd s]) @ tok"
           "\<forall>i < length tok. spaceLen (drop i tok @ t) = 0" "FieldsFrom [] t = []"
        by auto
      from False h(1) have s: "s = (hd s # tok) @ t" by (cases s) auto
      have "\<forall>i < length (hd s # tok). spaceLen (drop i (hd s # tok) @ t) = 0"
      proof (intro allI impI)
        fix i assume "i < length (hd s # tok)"
        show "spaceLen (drop i (hd s # tok) @ t) = 0"
        proof (cases i)
          case 0
          with s True show ?thesis by simp
        next
          case (Suc j)
          with \<open>i < length (hd s # tok)\<close> h(3) show ?thesis by simp
        qed
      qed
      with s h(2,4) show ?thesis by (metis append.assoc append_Cons append_Nil)
    next
      case sp: False
      with "1.prems"(2) have cur: "cur \<noteq> []" by simp
      with False sp "1.prems"(1) have "g = cur" "FieldsFrom [] (drop (spaceLen s) s) = []"
        by (simp_all add: FieldsFrom.simps[of cur s])
      with False sp have "FieldsFrom [] s = []" by (simp add: FieldsFrom.simps[of "[]" s])
      with \<open>g = cur\<close> show ?thesis by (intro exI[of _ "[]"] exI[of _ s]) simp
    qed
  qed
qed

lemma clean_TrimRight:
  assumes "\<forall>i < length f. spaceLen (drop i f @ t) = 0"
  shows "TrimRightSpace f = f"
proof -
  have "lastSpaceLen f = 0"
  proof (rule ccontr)
    assume n: "lastSpaceLen f \<noteq> 0"
    let ?j = "length f - lastSpaceLen f"
    from lastSpaceLen_drop[OF n] have r: "isSpaceRune (drop ?j f)" .
    from isSpaceRune_nonempty[OF r] have "?j < length f" by simp
    with assms have "spaceLen (drop ?j f @ t) = 0" by blast
    with spaceLen_rune[OF r, of t] isSpaceRune_nonempty[OF r] show False by simp
  qed
  then show ?thesis by (simp add: TrimRightSpace.simps[of f])
qed

lemma TrimSpace_fields:
  "Fields l = [] \<Longrightarrow> TrimSpace l = []"
  "Fields l = [g] \<Longrightarrow> TrimSpace l = g"
proof -
  assume "Fields l = []"
  then have "TrimLeftSpace l = []" by (simp add: Fields_def no_fields_TrimLeft)
  then show "TrimSpace l = []"
    by (simp add: TrimSpace_def TrimRightSpace.simps[of "[]"] lastSpaceLen_def)
next
  assume a: "Fields l = [g]"
  let ?u = "TrimLeftSpace l"
  from a have f: "FieldsFrom [] ?u = [g]" by (simp add: Fields_def TrimLeft_fields)
  then have "?u \<noteq> []" by (auto simp: FieldsFrom.simps[of "[]" "[]"])
  with TrimLeft_head[of l] have "[] \<noteq> ([]::string) \<or> (?u \<noteq> [] \<and> spaceLen ?u = 0)" by simp
  from one_field_split[OF f this] obtain tok t where
    h: "?u = tok @ t" "g = tok" "\<forall>i < length tok. spaceLen (drop i tok @ t) = 0"
       "FieldsFrom [] t = []" by auto
  have "TrimRightSpace (tok @ t) = TrimRightSpace tok"
    by (rule TrimRightSpace_spaces[OF no_fields_spaces[OF h(4)]])
  also have "\<dots> = tok" by (rule clean_TrimRight[OF h(3)])
  finally show "TrimSpace l = g" using h(1,2) by (simp add: TrimSpace_def)
qed

text \<open>
  Claim C5, as the code has it. The claim says that only an answer that is exactly
  \<open>y\<close> once trimmed and lower-cased confirms, and that \<open>Y\<close> followed by a space
  declines. \<open>Scanln\<close> stores the first word of the line, whatever follows it, and
  the program lower-cases that word: the line \<open>Y\<close> with a space after it confirms
  (and the client is run), and so does the line \<open>y es\<close>, which is not \<open>y\<close> once
  trimmed and lower-cased.
\<close>

theorem confirmation_accepts_padded_answer:
  "promptConfirmation (answerWorld (''Y '' @ [CHR 0x0A])) ''alice@svc1@foo''
   \<and> promptConfirmation (answerWorld (''y es'' @ [CHR 0x0A])) ''alice@svc1@foo''
   \<and> ToLower (TrimSpace ''y es'') \<noteq> ''y''
   \<and> main (answerWorld (''Y '' @ [CHR 0x0A])) = Connected plainSaved ''alice@svc1@foo''"
  by code_simp

text \<open>
  Claim C5, amended. For a line \<open>l\<close> on standard input, ended by a newline or by
  the end of the input, \<open>promptConfirmation\<close> returns true exactly when the first
  white-space-separated word of \<open>l\<close> is \<open>y\<close> or \<open>Y\<close>; white space before and after
  that word, and anything that follows it on the line, play no part. For a line
  of one word or none that is: exactly when the line, trimmed and lower-cased, is
  \<open>y\<close>. A line with no word at all (the empty line among them) and a line whose
  first word is anything else (\<open>yes\<close> among them) decline; the function reads once
  and does not ask again.
\<close>

theorem confirmation_reads_first_word:
  assumes "CHR 0x0A \<notin> set l"
    and "stdin w = l \<or> stdin w = l @ CHR 0x0A # rest"
  shows "promptConfirmation w sshCmd =
           (case Fields l of [] \<Rightarrow> False | word # others \<Rightarrow> word = ''y'' \<or> word = ''Y'')
       \<and> (length (Fields l) \<le> 1 \<longrightarrow>
            promptConfirmation w sshCmd = (ToLower (TrimSpace l) = ''y''))"
proof -
  from assms(2) obtain t where t: "stdin w = l @ t" "t = [] \<or> hd t = CHR 0x0A"
    by (cases "stdin w = l") auto
  from Scanln_first_field[OF t(2) assms(1)] t(1)
  have "Scanln (stdin w) = (case Fields l of [] \<Rightarrow> [] | f # fs \<Rightarrow> f)"
    by (simp add: Scanln_def Fields_def)
  then have first: "promptConfirmation w sshCmd =
           (case Fields l of [] \<Rightarrow> False | word # others \<Rightarrow> word = ''y'' \<or> word = ''Y'')"
    by (simp add: promptConfirmation_def ToLower_y split: list.splits)
  have "promptConfirmation w sshCmd = (ToLower (TrimSpace l) = ''y'')"
    if one: "length (Fields l) \<le> 1"
  proof (cases "Fields l")
    case Nil
    with first TrimSpace_fields(1)[OF Nil] show ?thesis by simp
  next
    case (Cons g gs)
    with one have "Fields l = [g]" by simp
    with first TrimSpace_fields(2)[OF this] show ?thesis by (simp add: ToLower_y)
  qed
  with first show ?thesis by blast
qed

theorem confirmation_reads_first_word_witness:
  "CHR 0x0A \<notin> set ''Y ''
   \<and> stdin (answerWorld (''Y '' @ [CHR 0x0A])) = ''Y '' @ CHR 0x0A # []
   \<and> Fields ''Y '' = [''Y'']
   \<and> length (Fields ''Y '') \<le> 1
   \<and> ToLower (TrimSpace ''Y '') = ''y''
   \<and> promptConfirmation (answerWorld (''Y '' @ [CHR 0x0A])) ''alice@svc1@foo''
   \<and> CHR 0x0A \<notin> set ''yes''
   \<and> stdin (answerWorld (''yes'' @ [CHR 0x0A])) = ''yes'' @ CHR 0x0A # []
   \<and> Fields ''yes'' = [''yes'']
   \<and> \<not> promptConfirmation (answerWorld (''yes'' @ [CHR 0x0A])) ''alice@svc1@foo''
   \<and> stdin (answerWorld [CHR 0x0A]) = [] @ CHR 0x0A # []
   \<and> Fields [] = []
   \<and> \<not> promptConfirmation (answerWorld [CHR 0x0A]) ''alice@svc1@foo''
   \<and> stdin (answerWorld '' y'') = '' y''
   \<and> Fields '' y'' = [''y'']
   \<and> promptConfirmation (answerWorld '' y'') ''alice@svc1@foo''"
proof -
  have a1: "CHR 0x0A \<notin> set ''Y ''" by simp
  have a2: "stdin (answerWorld (''Y '' @ [CHR 0x0A])) = ''Y '' @ CHR 0x0A # []" by code_simp
  have a3: "Fields ''Y '' = [''Y'']" by code_simp
  have a4: "length (Fields ''Y '') \<le> 1" by (simp add: a3)
  have a5: "ToLower (TrimSpace ''Y '') = ''y''" by code_simp
  have b1: "CHR 0x0A \<notin> set ''yes''" by simp
  have b2: "stdin (answerWorld (''yes'' @ [CHR 0x0A])) = ''yes'' @ CHR 0x0A # []" by code_simp
  have b3: "Fields ''yes'' = [''yes'']" by code_simp
  have c1: "CHR 0x0A \<notin> set []" by simp
  have c2: "stdin (answerWorld [CHR 0x0A]) = [] @ CHR 0x0A # []" by code_simp
  have c3: "Fields [] = []" by code_simp
  have d1: "CHR 0x0A \<notin> set '' y''" by simp
  have d2: "stdin (answerWorld '' y'') = '' y''" by code_simp
  have d3: "Fields '' y'' = [''y'']" by code_simp
  have a: "promptConfirmation (answerWorld (''Y '' @ [CHR 0x0A])) ''alice@svc1@foo''"
    using confirmation_reads_first_word[OF a1 disjI2[OF a2], where sshCmd="''alice@svc1@foo''"]
      a3 by simp
  have b: "\<not> promptConfirmation (answerWorld (''yes'' @ [CHR 0x0A])) ''alice@svc1@foo''"
    using confirmation_reads_first_word[OF b1 disjI2[OF b2], where sshCmd="''alice@svc1@foo''"]
      b3 by simp
  have c: "\<not> promptConfirmation (answerWorld [CHR 0x0A]) ''alice@svc1@foo''"
    using confirmation_reads_first_word[OF c1 disjI2[OF c2], where sshCmd="''alice@svc1@foo''"]
      c3 by simp
  have d: "promptConfirmation (answerWorld '' y'') ''alice@svc1@foo''"
    using confirmation_reads_first_word[OF d1 disjI1[OF d2], where sshCmd="''alice@svc1@foo''"]
      d3 by simp
  from a1 a2 a3 a4 a5 a b1 b2 b3 b c2 c3 c d2 d3 d show ?thesis by blast
qed

section \<open>Properties of loading and saving\<close>










end
